theory Spec2Isabelle
  imports Main "HOL-Library.Word"
begin

section \<open>The callback and task dispatch core of mvCallbackRegistry.h\<close>

text \<open>
  The header defines a linked-list queue (\<open>mvQueue\<close>), a holder of two Python
  references (\<open>mvCallbackWrapper\<close>), a named slot around such a holder
  (\<open>mvCallbackPythonSlot\<close>), the registry structure and the two submission
  functions \<open>mvSubmitTask\<close> and \<open>mvSubmitCallback\<close>.

  The embedding is sequential: one call runs at a time, so the mutexes of the queue
  do not appear. Pointers are addresses into explicit stores. Dereferencing a pointer
  that is null or no longer allocated is undefined behaviour in C++ and is the error
  value \<open>NullDereference\<close> here. A wait on the condition variable whose predicate is
  false cannot be ended by the calling thread itself; it is the error value
  \<open>WouldBlock\<close>.
\<close>

subsection \<open>mvQueue\<close>

type_synonym addr = nat

datatype error = NullDereference | WouldBlock

text \<open>
  \<open>struct node { std::shared_ptr<T> data; std::unique_ptr<node> next; }\<close>.
  An empty \<open>shared_ptr\<close> or \<open>unique_ptr\<close> is \<open>None\<close>.
\<close>

record 'a node =
  data :: "'a option"
  nxt :: "addr option"

text \<open>
  The nodes live in \<open>heap\<close>; \<open>fresh\<close> is the next address that \<open>new\<close> hands out.
  \<open>m_head\<close> is a \<open>unique_ptr\<close> (it may be null), \<open>m_tail\<close> a raw pointer.
\<close>

record 'a mvQueue =
  heap :: "addr \<rightharpoonup> 'a node"
  fresh :: addr
  m_head :: "addr option"
  m_tail :: addr

text \<open>\<open>mvQueue() : m_head(new node), m_tail(m_head.get()) {}\<close>\<close>

definition mvQueue_init :: "'a mvQueue" where
  "mvQueue_init =
     \<lparr>heap = [0 \<mapsto> \<lparr>data = None, nxt = None\<rparr>], fresh = 1, m_head = Some 0, m_tail = 0\<rparr>"

text \<open>
  \<open>push\<close>: a new empty node \<open>p\<close> is allocated, the value is stored in the current
  tail node, \<open>p\<close> is linked behind it and becomes the tail. The assignment to
  \<open>m_tail->next\<close> overwrites the old pointer; in every queue that satisfies
  \<open>queue_inv\<close> below that pointer is null, so nothing is deleted by it.
\<close>

definition push :: "'a \<Rightarrow> 'a mvQueue \<Rightarrow> error + 'a mvQueue" where
  "push v q =
     (let p = fresh q;
          h = (heap q)(p \<mapsto> \<lparr>data = None, nxt = None\<rparr>)
      in case h (m_tail q) of
           None \<Rightarrow> Inl NullDereference
         | Some t \<Rightarrow>
             Inr (q\<lparr>heap := h(m_tail q \<mapsto> t\<lparr>data := Some v, nxt := Some p\<rparr>),
                    fresh := Suc p,
                    m_tail := p\<rparr>))"

text \<open>\<open>empty\<close>: \<open>m_head.get() == get_tail()\<close>\<close>

definition mvQueue_empty :: "'a mvQueue \<Rightarrow> bool" where
  "mvQueue_empty q \<longleftrightarrow> m_head q = Some (m_tail q)"

text \<open>
  \<open>pop_head\<close>: the head node is detached and handed to the caller, who owns it from
  then on; \<open>m_head\<close> takes over the detached node's \<open>next\<close> pointer.
\<close>

definition pop_head :: "'a mvQueue \<Rightarrow> error + (addr \<times> 'a mvQueue)" where
  "pop_head q =
     (case m_head q of
        None \<Rightarrow> Inl NullDereference
      | Some old_head \<Rightarrow>
          (case heap q old_head of
             None \<Rightarrow> Inl NullDereference
           | Some n \<Rightarrow>
               Inr (old_head,
                    q\<lparr>heap := (heap q)(old_head \<mapsto> n\<lparr>nxt := None\<rparr>), m_head := nxt n\<rparr>)))"

text \<open>
  The callers of \<open>pop_head\<close> hold the detached node in a local \<open>unique_ptr\<close>, read it
  and drop it at the end of their scope: \<open>release_node\<close> reads the data pointer of the
  node and deletes the node.
\<close>

definition release_node :: "addr \<Rightarrow> 'a mvQueue \<Rightarrow> error + ('a option \<times> 'a mvQueue)" where
  "release_node old_head q =
     (case heap q old_head of
        None \<Rightarrow> Inl NullDereference
      | Some n \<Rightarrow> Inr (data n, q\<lparr>heap := (heap q)(old_head := None)\<rparr>))"

text \<open>\<open>value = std::move(*m_head->data)\<close>: both pointers are dereferenced.\<close>

definition head_value :: "'a mvQueue \<Rightarrow> error + 'a" where
  "head_value q =
     (case m_head q of
        None \<Rightarrow> Inl NullDereference
      | Some h \<Rightarrow>
          (case heap q h of
             None \<Rightarrow> Inl NullDereference
           | Some n \<Rightarrow> (case data n of None \<Rightarrow> Inl NullDereference | Some v \<Rightarrow> Inr v)))"

text \<open>\<open>try_pop_head()\<close>: a null \<open>unique_ptr\<close> when head and tail coincide.\<close>

definition try_pop_head :: "'a mvQueue \<Rightarrow> error + (addr option \<times> 'a mvQueue)" where
  "try_pop_head q =
     (if m_head q = Some (m_tail q) then Inr (None, q)
      else case pop_head q of
             Inl e \<Rightarrow> Inl e
           | Inr (old_head, q') \<Rightarrow> Inr (Some old_head, q'))"

text \<open>\<open>try_pop_head(T& value)\<close>: the result also carries the content of \<open>value\<close>.\<close>

definition try_pop_head_value ::
  "'a \<Rightarrow> 'a mvQueue \<Rightarrow> error + (addr option \<times> 'a \<times> 'a mvQueue)" where
  "try_pop_head_value val q =
     (if m_head q = Some (m_tail q) then Inr (None, val, q)
      else case head_value q of
             Inl e \<Rightarrow> Inl e
           | Inr v \<Rightarrow>
               (case pop_head q of
                  Inl e \<Rightarrow> Inl e
                | Inr (old_head, q') \<Rightarrow> Inr (Some old_head, v, q')))"

text \<open>
  \<open>wait_for_data\<close>: the wait returns at once when its predicate \<open>head != tail\<close> holds.
\<close>

definition wait_for_data :: "'a mvQueue \<Rightarrow> error + 'a mvQueue" where
  "wait_for_data q = (if m_head q \<noteq> Some (m_tail q) then Inr q else Inl WouldBlock)"

definition wait_pop_head :: "'a mvQueue \<Rightarrow> error + (addr \<times> 'a mvQueue)" where
  "wait_pop_head q = (case wait_for_data q of Inl e \<Rightarrow> Inl e | Inr q' \<Rightarrow> pop_head q')"

definition wait_pop_head_value :: "'a mvQueue \<Rightarrow> error + (addr \<times> 'a \<times> 'a mvQueue)" where
  "wait_pop_head_value q =
     (case wait_for_data q of
        Inl e \<Rightarrow> Inl e
      | Inr q' \<Rightarrow>
          (case head_value q' of
             Inl e \<Rightarrow> Inl e
           | Inr v \<Rightarrow>
               (case pop_head q' of
                  Inl e \<Rightarrow> Inl e
                | Inr (old_head, q'') \<Rightarrow> Inr (old_head, v, q''))))"

text \<open>\<open>std::shared_ptr<T> wait_and_pop()\<close>\<close>

definition wait_and_pop :: "'a mvQueue \<Rightarrow> error + ('a option \<times> 'a mvQueue)" where
  "wait_and_pop q =
     (case wait_pop_head q of
        Inl e \<Rightarrow> Inl e
      | Inr (old_head, q') \<Rightarrow> release_node old_head q')"

text \<open>\<open>std::shared_ptr<T> try_pop()\<close>\<close>

definition try_pop :: "'a mvQueue \<Rightarrow> error + ('a option \<times> 'a mvQueue)" where
  "try_pop q =
     (case try_pop_head q of
        Inl e \<Rightarrow> Inl e
      | Inr (None, q') \<Rightarrow> Inr (None, q')
      | Inr (Some old_head, q') \<Rightarrow> release_node old_head q')"

text \<open>\<open>void wait_and_pop(T& value)\<close>: the result is the new content of \<open>value\<close>.\<close>

definition wait_and_pop_value :: "'a mvQueue \<Rightarrow> error + ('a \<times> 'a mvQueue)" where
  "wait_and_pop_value q =
     (case wait_pop_head_value q of
        Inl e \<Rightarrow> Inl e
      | Inr (old_head, v, q') \<Rightarrow>
          (case release_node old_head q' of
             Inl e \<Rightarrow> Inl e
           | Inr (_, q'') \<Rightarrow> Inr (v, q'')))"

text \<open>\<open>bool try_pop(T& value)\<close>: the result is the flag and the content of \<open>value\<close>.\<close>

definition try_pop_value :: "'a \<Rightarrow> 'a mvQueue \<Rightarrow> error + (bool \<times> 'a \<times> 'a mvQueue)" where
  "try_pop_value val q =
     (case try_pop_head_value val q of
        Inl e \<Rightarrow> Inl e
      | Inr (None, v, q') \<Rightarrow> Inr (False, v, q')
      | Inr (Some old_head, v, q') \<Rightarrow>
          (case release_node old_head q' of
             Inl e \<Rightarrow> Inl e
           | Inr (_, q'') \<Rightarrow> Inr (True, v, q'')))"

subsection \<open>Sequences of queue operations\<close>

text \<open>The four ways to take an element out, with the value each hands to its caller.\<close>

datatype 'a pop_kind = TryPop | WaitAndPop | TryPopInto 'a | WaitAndPopInto

fun pop_by :: "'a pop_kind \<Rightarrow> 'a mvQueue \<Rightarrow> error + ('a option \<times> 'a mvQueue)" where
  "pop_by TryPop q = try_pop q"
| "pop_by WaitAndPop q = wait_and_pop q"
| "pop_by (TryPopInto val) q =
     (case try_pop_value val q of
        Inl e \<Rightarrow> Inl e
      | Inr (ok, v, q') \<Rightarrow> Inr (if ok then Some v else None, q'))"
| "pop_by WaitAndPopInto q =
     (case wait_and_pop_value q of
        Inl e \<Rightarrow> Inl e
      | Inr (v, q') \<Rightarrow> Inr (Some v, q'))"

fun pushes :: "'a list \<Rightarrow> 'a mvQueue \<Rightarrow> error + 'a mvQueue" where
  "pushes [] q = Inr q"
| "pushes (v # vs) q = (case push v q of Inl e \<Rightarrow> Inl e | Inr q' \<Rightarrow> pushes vs q')"

fun pops :: "'a pop_kind list \<Rightarrow> 'a mvQueue \<Rightarrow> error + ('a option list \<times> 'a mvQueue)" where
  "pops [] q = Inr ([], q)"
| "pops (k # ks) q =
     (case pop_by k q of
        Inl e \<Rightarrow> Inl e
      | Inr (r, q') \<Rightarrow>
          (case pops ks q' of
             Inl e \<Rightarrow> Inl e
           | Inr (rs, q'') \<Rightarrow> Inr (r # rs, q'')))"

subsection \<open>The shape of a queue\<close>

text \<open>
  \<open>chain h t p vs\<close>: following \<open>next\<close> from \<open>p\<close> reaches the tail \<open>t\<close>, the nodes before
  it carry the values \<open>vs\<close> in this order, and every link leads to a node allocated
  later than the one it leaves.
\<close>

fun chain :: "(addr \<rightharpoonup> 'a node) \<Rightarrow> addr \<Rightarrow> addr \<Rightarrow> 'a list \<Rightarrow> bool" where
  "chain h t p [] \<longleftrightarrow> p = t"
| "chain h t p (v # vs) \<longleftrightarrow>
     (case h p of
        None \<Rightarrow> False
      | Some n \<Rightarrow>
          data n = Some v \<and>
          (case nxt n of None \<Rightarrow> False | Some p' \<Rightarrow> p < p' \<and> chain h t p' vs))"

text \<open>
  \<open>queue_inv q vs\<close>: the queue holds the values \<open>vs\<close>, oldest first; its tail is an
  allocated empty node.
\<close>

definition queue_inv :: "'a mvQueue \<Rightarrow> 'a list \<Rightarrow> bool" where
  "queue_inv q vs \<longleftrightarrow>
     (case m_head q of None \<Rightarrow> False | Some p \<Rightarrow> chain (heap q) (m_tail q) p vs) \<and>
     heap q (m_tail q) = Some \<lparr>data = None, nxt = None\<rparr> \<and>
     m_tail q < fresh q"

subsection \<open>Python objects and callback holders\<close>

text \<open>
  A \<open>PyObject*\<close> is the address of a Python object or null. \<open>ob_refcnt\<close> maps every
  object to its reference count. \<open>Py_XINCREF\<close> and \<open>Py_XDECREF\<close> are the macros of
  CPython: nothing on a null pointer, one more or one fewer reference otherwise.
\<close>

type_synonym PyObject = "addr option"

type_synonym mvUUID = "64 word"

fun Py_XINCREF :: "PyObject \<Rightarrow> (addr \<Rightarrow> int) \<Rightarrow> (addr \<Rightarrow> int)" where
  "Py_XINCREF None rc = rc"
| "Py_XINCREF (Some ob) rc = rc(ob := rc ob + 1)"

fun Py_XDECREF :: "PyObject \<Rightarrow> (addr \<Rightarrow> int) \<Rightarrow> (addr \<Rightarrow> int)" where
  "Py_XDECREF None rc = rc"
| "Py_XDECREF (Some ob) rc = rc(ob := rc ob - 1)"

text \<open>\<open>class mvCallbackWrapper { PyObject* callback; PyObject* userData; ... }\<close>\<close>

record mvCallbackWrapper =
  callback :: PyObject
  userData :: PyObject

text \<open>
  \<open>class mvCallbackPythonSlot\<close>: the name and the member \<open>callbackWrapper\<close>, given by
  the address at which that member object lives.
\<close>

record mvCallbackPythonSlot =
  pythonName :: string
  callbackWrapper :: addr

record mvCallbackJob =
  sender :: mvUUID
  job_callback :: PyObject
  app_data :: PyObject
  user_data :: PyObject
  sender_str :: string

subsection \<open>The registry and the context\<close>

text \<open>
  \<open>struct mvCallbackRegistry\<close>. The two queues hold \<open>mvFunctionWrapper\<close> values; \<open>'f\<close>
  is the type of the closures they wrap. \<open>maxNumberOfCalls\<close> and \<open>callCount\<close> are
  \<open>i32\<close>: 32-bit words read as signed numbers.
\<close>

record 'f mvCallbackRegistry =
  maxNumberOfCalls :: "32 word"
  jobs :: "mvCallbackJob list"
  tasks :: "'f mvQueue"
  calls :: "'f mvQueue"
  running :: bool
  callCount :: "32 word"
  viewportResizeCallbackSlot :: mvCallbackPythonSlot
  exitCallbackSlot :: mvCallbackPythonSlot
  dragEnterCallbackSlot :: mvCallbackPythonSlot
  dragLeaveCallbackSlot :: mvCallbackPythonSlot
  dragOverCallbackSlot :: mvCallbackPythonSlot
  dropCallbackSlot :: mvCallbackPythonSlot
  highestFrame :: "32 word"
  frameCallbacks :: "32 word \<rightharpoonup> PyObject"
  frameCallbacksUserData :: "32 word \<rightharpoonup> PyObject"

text \<open>
  Modelled from the spec: \<open>mvContext.h\<close> is not among the sources. Of the context
  behind \<open>GContext\<close> the record keeps the two members this header reads: the flag
  \<open>started\<close> and the registry.
\<close>

record 'f mvContext =
  started :: bool
  callbackRegistry :: "'f mvCallbackRegistry"

text \<open>
  The state of the program: the context, the callback holders that are alive (by
  address), the reference counts of the Python objects, and the calls of
  \<open>mvRunCallback\<close> made so far, oldest first.
\<close>

record 'f world =
  GContext :: "'f mvContext"
  wrappers :: "addr \<rightharpoonup> mvCallbackWrapper"
  ob_refcnt :: "addr \<Rightarrow> int"
  callbacks_run :: "(PyObject \<times> mvUUID \<times> PyObject \<times> PyObject) list"

text \<open>The registry as its default member initialisers leave it.\<close>

definition mvCallbackRegistry_init :: "'f mvCallbackRegistry" where
  "mvCallbackRegistry_init =
     \<lparr>maxNumberOfCalls = 50,
      jobs = [],
      tasks = mvQueue_init,
      calls = mvQueue_init,
      running = False,
      callCount = 0,
      viewportResizeCallbackSlot =
        \<lparr>pythonName = ''set_viewport_resize_callback'', callbackWrapper = 0\<rparr>,
      exitCallbackSlot = \<lparr>pythonName = ''set_exit_callback'', callbackWrapper = 1\<rparr>,
      dragEnterCallbackSlot = \<lparr>pythonName = ''set_drag_enter_callback'', callbackWrapper = 2\<rparr>,
      dragLeaveCallbackSlot = \<lparr>pythonName = ''set_drag_leave_callback'', callbackWrapper = 3\<rparr>,
      dragOverCallbackSlot = \<lparr>pythonName = ''set_drag_over_callback'', callbackWrapper = 4\<rparr>,
      dropCallbackSlot = \<lparr>pythonName = ''set_drop_callback'', callbackWrapper = 5\<rparr>,
      highestFrame = 0,
      frameCallbacks = Map.empty,
      frameCallbacksUserData = Map.empty\<rparr>"

text \<open>
  A program state right after the registry was created: not started, the six slot
  holders default-constructed (both pointers null) at the addresses 0 to 5, no
  reference counted yet, no callback run yet.
\<close>

definition world_init :: "'f world" where
  "world_init =
     \<lparr>GContext = \<lparr>started = False, callbackRegistry = mvCallbackRegistry_init\<rparr>,
      wrappers = (\<lambda>a. if a < 6 then Some \<lparr>callback = None, userData = None\<rparr> else None),
      ob_refcnt = (\<lambda>_. 0),
      callbacks_run = []\<rparr>"

definition registry :: "'f world \<Rightarrow> 'f mvCallbackRegistry" where
  "registry w = callbackRegistry (GContext w)"

definition set_registry :: "'f mvCallbackRegistry \<Rightarrow> 'f world \<Rightarrow> 'f world" where
  "set_registry r w = w\<lparr>GContext := (GContext w)\<lparr>callbackRegistry := r\<rparr>\<rparr>"

subsection \<open>mvSubmitTask and mvSubmitCallback\<close>

text \<open>
  A \<open>std::future\<close>: without shared state (\<open>return {}\<close>), or with the state of a
  \<open>packaged_task\<close> that has not run yet, or with the result of one that has run.
\<close>

datatype 'r future = NoState | Pending | Ready 'r

text \<open>
  \<open>mvSubmitTask\<close>. What running a closure does is the parameter \<open>call\<close>: a closure
  returns a result and changes the program state, or its behaviour is undefined.
\<close>

definition mvSubmitTask ::
  "('f \<Rightarrow> 'f world \<Rightarrow> error + ('r \<times> 'f world)) \<Rightarrow> 'f \<Rightarrow> 'f world \<Rightarrow>
     error + ('r future \<times> 'f world)" where
  "mvSubmitTask call f w =
     (if started (GContext w) then
        (case push f (tasks (registry w)) of
           Inl e \<Rightarrow> Inl e
         | Inr q \<Rightarrow> Inr (Pending, set_registry ((registry w)\<lparr>tasks := q\<rparr>) w))
      else
        (case call f w of
           Inl e \<Rightarrow> Inl e
         | Inr (r, w') \<Rightarrow> Inr (Ready r, w')))"

text \<open>\<open>mvSubmitCallback\<close>: the comparison is the signed \<open>callCount > maxNumberOfCalls\<close>.\<close>

definition mvSubmitCallback :: "'f \<Rightarrow> 'f world \<Rightarrow> error + ('r future \<times> 'f world)" where
  "mvSubmitCallback f w =
     (if maxNumberOfCalls (registry w) <s callCount (registry w) then Inr (NoState, w)
      else
        let r = (registry w)\<lparr>callCount := callCount (registry w) + 1\<rparr>
        in case push f (calls r) of
             Inl e \<Rightarrow> Inl e
           | Inr q \<Rightarrow> Inr (Pending, set_registry (r\<lparr>calls := q\<rparr>) w))"

text \<open>Several submissions in a row, with the future each one returns.\<close>

fun submit_callbacks :: "'f list \<Rightarrow> 'f world \<Rightarrow> error + (unit future list \<times> 'f world)" where
  "submit_callbacks [] w = Inr ([], w)"
| "submit_callbacks (f # fs) w =
     (case mvSubmitCallback f w of
        Inl e \<Rightarrow> Inl e
      | Inr (r, w') \<Rightarrow>
          (case submit_callbacks fs w' of
             Inl e \<Rightarrow> Inl e
           | Inr (rs, w'') \<Rightarrow> Inr (r # rs, w'')))"

text \<open>
  Modelled from the spec: \<open>mvRunCallbacks\<close> is declared in the header and defined in a
  file that is not among the sources. This is the last step the spec gives for it:
  once the \<open>calls\<close> queue is drained, \<open>callCount\<close> is set to 0.
\<close>

definition reset_callCount :: "'f world \<Rightarrow> 'f world" where
  "reset_callCount w = set_registry ((registry w)\<lparr>callCount := 0\<rparr>) w"

subsection \<open>mvCallbackWrapper and mvCallbackPythonSlot\<close>

text \<open>
  The closures in the queues: the lambda that \<open>mvCallbackWrapper::run\<close> creates, or any
  other closure. The lambda is written \<open>[=]\<close> inside a member function and names the
  members \<open>callback\<close> and \<open>userData\<close>: it captures \<open>this\<close>, and copies of the
  parameters \<open>sender\<close> and \<open>appData\<close>. The members are read through \<open>this\<close> when the
  lambda runs.
\<close>

datatype 'g closure = RunLambda addr mvUUID PyObject | Other 'g

text \<open>
  Modelled from the spec: \<open>mvRunCallback\<close> is declared in the header and defined in a
  file that is not among the sources. It calls the external callback with the sender
  and the two payloads; the call is recorded and no reference count changes.
\<close>

definition mvRunCallback :: "PyObject \<Rightarrow> mvUUID \<Rightarrow> PyObject \<Rightarrow> PyObject \<Rightarrow> 'f world \<Rightarrow> 'f world" where
  "mvRunCallback cb snd_id appData ud w =
     w\<lparr>callbacks_run := callbacks_run w @ [(cb, snd_id, appData, ud)]\<rparr>"

text \<open>\<open>mvCallbackWrapper() = default\<close>, constructing at the address \<open>this\<close>.\<close>

definition mvCallbackWrapper_default :: "addr \<Rightarrow> 'f world \<Rightarrow> 'f world" where
  "mvCallbackWrapper_default this w =
     w\<lparr>wrappers := (wrappers w)(this \<mapsto> \<lparr>callback = None, userData = None\<rparr>)\<rparr>"

text \<open>\<open>mvCallbackWrapper(PyObject* callback, PyObject* userData, bool borrow = true)\<close>\<close>

definition mvCallbackWrapper_new ::
  "addr \<Rightarrow> PyObject \<Rightarrow> PyObject \<Rightarrow> bool \<Rightarrow> 'f world \<Rightarrow> 'f world" where
  "mvCallbackWrapper_new this cb ud borrow w =
     (let w1 = w\<lparr>wrappers := (wrappers w)(this \<mapsto> \<lparr>callback = cb, userData = ud\<rparr>)\<rparr>
      in if borrow then w1\<lparr>ob_refcnt := Py_XINCREF ud (Py_XINCREF cb (ob_refcnt w1))\<rparr>
         else w1)"

text \<open>
  \<open>template<typename F> mvCallbackWrapper(F&& f)\<close>: the new holder at \<open>this\<close> takes
  the two pointers of \<open>f\<close>, then \<open>f\<close> is set to null.
\<close>

definition mvCallbackWrapper_steal :: "addr \<Rightarrow> addr \<Rightarrow> 'f world \<Rightarrow> error + 'f world" where
  "mvCallbackWrapper_steal this f w =
     (case wrappers w f of
        None \<Rightarrow> Inl NullDereference
      | Some src \<Rightarrow>
          Inr (w\<lparr>wrappers :=
                 (wrappers w)(this \<mapsto> \<lparr>callback = callback src, userData = userData src\<rparr>,
                              f \<mapsto> \<lparr>callback = None, userData = None\<rparr>)\<rparr>))"

text \<open>\<open>mvCallbackWrapper& operator=(mvCallbackWrapper&& other)\<close>\<close>

definition mvCallbackWrapper_assign :: "addr \<Rightarrow> addr \<Rightarrow> 'f world \<Rightarrow> error + 'f world" where
  "mvCallbackWrapper_assign this other w =
     (case (wrappers w this, wrappers w other) of
        (Some dst, Some src) \<Rightarrow>
          Inr (w\<lparr>wrappers :=
                 (wrappers w)(this \<mapsto> dst\<lparr>callback := callback src, userData := userData src\<rparr>,
                              other \<mapsto> \<lparr>callback = None, userData = None\<rparr>)\<rparr>)
      | _ \<Rightarrow> Inl NullDereference)"

text \<open>
  \<open>run\<close>: the future that \<open>mvSubmitCallback\<close> returns is dropped, so a refused
  submission looks like an accepted one to the caller.
\<close>

definition mvCallbackWrapper_run ::
  "addr \<Rightarrow> mvUUID \<Rightarrow> PyObject \<Rightarrow> bool \<Rightarrow> 'g closure world \<Rightarrow> error + 'g closure world" where
  "mvCallbackWrapper_run this snd_id appData decrementAppData w =
     (case wrappers w this of
        None \<Rightarrow> Inl NullDereference
      | Some cw \<Rightarrow>
          if callback cw = None then Inr w
          else
            let rc1 = Py_XINCREF (userData cw) (Py_XINCREF (callback cw) (ob_refcnt w));
                rc2 = (if \<not> decrementAppData then Py_XINCREF appData rc1 else rc1)
            in case (mvSubmitCallback (RunLambda this snd_id appData) (w\<lparr>ob_refcnt := rc2\<rparr>)
                      :: error + (unit future \<times> 'g closure world)) of
                 Inl e \<Rightarrow> Inl e
               | Inr (_, w') \<Rightarrow> Inr w')"

text \<open>The body of the lambda of \<open>run\<close>, executed when the queued unit is invoked.\<close>

definition run_lambda :: "addr \<Rightarrow> mvUUID \<Rightarrow> PyObject \<Rightarrow> 'f world \<Rightarrow> error + 'f world" where
  "run_lambda this snd_id appData w =
     (case wrappers w this of
        None \<Rightarrow> Inl NullDereference
      | Some cw \<Rightarrow>
          let w1 = mvRunCallback (callback cw) snd_id appData (userData cw) w
          in Inr (w1\<lparr>ob_refcnt :=
                      Py_XDECREF appData
                        (Py_XDECREF (userData cw) (Py_XDECREF (callback cw) (ob_refcnt w1)))\<rparr>))"

text \<open>Invoking a queued unit; closures other than the lambda are run by \<open>call\<close>.\<close>

fun invoke ::
  "('g \<Rightarrow> 'g closure world \<Rightarrow> error + 'g closure world) \<Rightarrow> 'g closure \<Rightarrow>
     'g closure world \<Rightarrow> error + 'g closure world" where
  "invoke call (RunLambda this snd_id appData) w = run_lambda this snd_id appData w"
| "invoke call (Other g) w = call g w"

text \<open>\<open>run_blocking\<close>: the parameter \<open>decrementAppData\<close> is not used.\<close>

definition mvCallbackWrapper_run_blocking ::
  "addr \<Rightarrow> mvUUID \<Rightarrow> PyObject \<Rightarrow> bool \<Rightarrow> 'f world \<Rightarrow> error + 'f world" where
  "mvCallbackWrapper_run_blocking this snd_id appData decrementAppData w =
     (case wrappers w this of
        None \<Rightarrow> Inl NullDereference
      | Some cw \<Rightarrow>
          if callback cw = None then Inr w
          else Inr (mvRunCallback (callback cw) snd_id appData (userData cw) w))"

text \<open>\<open>~mvCallbackWrapper()\<close>: both references are given back, the holder is gone.\<close>

definition mvCallbackWrapper_destroy :: "addr \<Rightarrow> 'f world \<Rightarrow> error + 'f world" where
  "mvCallbackWrapper_destroy this w =
     (case wrappers w this of
        None \<Rightarrow> Inl NullDereference
      | Some cw \<Rightarrow>
          Inr (w\<lparr>ob_refcnt := Py_XDECREF (userData cw) (Py_XDECREF (callback cw) (ob_refcnt w)),
                 wrappers := (wrappers w)(this := None)\<rparr>))"

text \<open>The slot passes \<open>run\<close> and \<open>run_blocking\<close> on to its holder.\<close>

definition mvCallbackPythonSlot_run ::
  "mvCallbackPythonSlot \<Rightarrow> mvUUID \<Rightarrow> PyObject \<Rightarrow> bool \<Rightarrow> 'g closure world \<Rightarrow>
     error + 'g closure world" where
  "mvCallbackPythonSlot_run slot snd_id appData decrementAppData w =
     mvCallbackWrapper_run (callbackWrapper slot) snd_id appData decrementAppData w"

definition mvCallbackPythonSlot_run_blocking ::
  "mvCallbackPythonSlot \<Rightarrow> mvUUID \<Rightarrow> PyObject \<Rightarrow> bool \<Rightarrow> 'f world \<Rightarrow> error + 'f world" where
  "mvCallbackPythonSlot_run_blocking slot snd_id appData decrementAppData w =
     mvCallbackWrapper_run_blocking (callbackWrapper slot) snd_id appData decrementAppData w"

subsection \<open>Sequences of operations on one callback holder\<close>









section \<open>Properties\<close>

subsection \<open>The shape of a queue is kept by push and pop\<close>

lemma chain_le: "chain h t p vs \<Longrightarrow> p \<le> t"
proof (induction vs arbitrary: p)
  case Nil
  then show ?case by simp
next
  case (Cons v vs)
  then show ?case by (fastforce split: option.splits)
qed

lemma chain_upd_below: "chain h t p vs \<Longrightarrow> a < p \<Longrightarrow> chain (h(a := x)) t p vs"
proof (induction vs arbitrary: p)
  case Nil
  then show ?case by simp
next
  case (Cons v vs)
  from Cons.prems obtain n p' where n: "h p = Some n" "data n = Some v" "nxt n = Some p'"
    "p < p'" "chain h t p' vs"
    by (auto split: option.splits)
  from n(4) Cons.prems(2) have "a < p'" "a \<noteq> p" by auto
  with n Cons.IH [OF n(5)] show ?case by simp
qed

lemma chain_push:
  "chain h t p vs \<Longrightarrow> t < f \<Longrightarrow>
   chain (h(f \<mapsto> e, t \<mapsto> \<lparr>data = Some v, nxt = Some f\<rparr>)) f p (vs @ [v])"
proof (induction vs arbitrary: p)
  case Nil
  then show ?case by simp
next
  case (Cons w ws)
  from Cons.prems obtain n p' where n: "h p = Some n" "data n = Some w" "nxt n = Some p'"
    "p < p'" "chain h t p' ws"
    by (auto split: option.splits)
  from chain_le [OF n(5)] n(4) Cons.prems(2) have "p \<noteq> t" "p \<noteq> f" by auto
  with n Cons.IH [OF n(5) Cons.prems(2)] show ?case by simp
qed

lemma push_inv:
  assumes "queue_inv q vs"
  shows "\<exists>q'. push v q = Inr q' \<and> queue_inv q' (vs @ [v])"
proof -
  from assms obtain p where p: "m_head q = Some p" "chain (heap q) (m_tail q) p vs"
    and t: "heap q (m_tail q) = Some \<lparr>data = None, nxt = None\<rparr>" "m_tail q < fresh q"
    by (auto simp: queue_inv_def split: option.splits)
  from chain_push [OF p(2) t(2)] p(1) t show ?thesis
    by (simp add: push_def queue_inv_def Let_def)
qed

lemma pop_head_inv:
  assumes "queue_inv q (v # vs)"
  shows "\<exists>p q'. pop_head q = Inr (p, q') \<and> release_node p q' = Inr (Some v, q'\<lparr>heap := (heap q')(p := None)\<rparr>)
     \<and> queue_inv (q'\<lparr>heap := (heap q')(p := None)\<rparr>) vs \<and> head_value q = Inr v \<and> m_head q \<noteq> Some (m_tail q)"
proof -
  from assms obtain p where p: "m_head q = Some p" "chain (heap q) (m_tail q) p (v # vs)"
    and t: "heap q (m_tail q) = Some \<lparr>data = None, nxt = None\<rparr>" "m_tail q < fresh q"
    by (auto simp: queue_inv_def split: option.splits)
  from p(2) obtain n p' where n: "heap q p = Some n" "data n = Some v" "nxt n = Some p'"
    "p < p'" "chain (heap q) (m_tail q) p' vs"
    by (auto split: option.splits)
  from chain_le [OF n(5)] n(4) have neq: "p \<noteq> m_tail q" by auto
  have "chain ((heap q)(p := None)) (m_tail q) p' vs"
    by (rule chain_upd_below [OF n(5) n(4)])
  with p(1) n t neq show ?thesis
    by (simp add: pop_head_def release_node_def queue_inv_def head_value_def)
qed

lemma pop_by_inv:
  assumes "queue_inv q (v # vs)"
  shows "\<exists>q'. pop_by k q = Inr (Some v, q') \<and> queue_inv q' vs"
proof -
  from pop_head_inv [OF assms] obtain p q' where
    *: "pop_head q = Inr (p, q')"
       "release_node p q' = Inr (Some v, q'\<lparr>heap := (heap q')(p := None)\<rparr>)"
       "queue_inv (q'\<lparr>heap := (heap q')(p := None)\<rparr>) vs"
       "head_value q = Inr v" "m_head q \<noteq> Some (m_tail q)"
    by blast
  then show ?thesis
    by (cases k)
      (simp_all add: try_pop_def try_pop_head_def wait_and_pop_def wait_pop_head_def
        wait_for_data_def try_pop_value_def try_pop_head_value_def wait_and_pop_value_def
        wait_pop_head_value_def)
qed

lemma pushes_inv:
  "queue_inv q vs \<Longrightarrow> \<exists>q'. pushes ws q = Inr q' \<and> queue_inv q' (vs @ ws)"
proof (induction ws arbitrary: q vs)
  case Nil
  then show ?case by simp
next
  case (Cons w ws)
  from push_inv [OF Cons.prems] obtain q1 where q1: "push w q = Inr q1" "queue_inv q1 (vs @ [w])"
    by blast
  from Cons.IH [OF q1(2)] q1(1) show ?case by simp
qed

lemma pops_inv:
  "queue_inv q (vs @ ws) \<Longrightarrow> length ks = length vs \<Longrightarrow>
   \<exists>q'. pops ks q = Inr (map Some vs, q') \<and> queue_inv q' ws"
proof (induction ks arbitrary: q vs)
  case Nil
  then show ?case by simp
next
  case (Cons k ks)
  then obtain v vs' where vs: "vs = v # vs'" by (cases vs) auto
  with Cons.prems have "queue_inv q (v # (vs' @ ws))" by simp
  from pop_by_inv [OF this] obtain q1 where q1: "pop_by k q = Inr (Some v, q1)" "queue_inv q1 (vs' @ ws)"
    by blast
  from Cons.prems vs have "length ks = length vs'" by simp
  from Cons.IH [OF q1(2) this] q1(1) vs show ?case by auto
qed

lemma mvQueue_init_inv: "queue_inv (mvQueue_init :: 'a mvQueue) []"
  by (simp add: queue_inv_def mvQueue_init_def)

text \<open>
  On a well-formed queue without elements \<open>wait_and_pop\<close> waits. After one push it
  returns the pushed value and leaves the queue without elements.
\<close>

lemma wait_and_pop_after_push:
  assumes "queue_inv q []"
  shows "wait_and_pop q = Inl WouldBlock \<and>
         (\<exists>q1 q2. push v q = Inr q1 \<and> wait_and_pop q1 = Inr (Some v, q2) \<and> queue_inv q2 [])"
proof -
  from assms have "m_head q = Some (m_tail q)"
    by (auto simp: queue_inv_def split: option.splits)
  then have w: "wait_and_pop q = Inl WouldBlock"
    by (simp add: wait_and_pop_def wait_pop_head_def wait_for_data_def)
  from push_inv [OF assms, of v] obtain q1 where q1: "push v q = Inr q1" "queue_inv q1 [v]"
    by auto
  from pop_by_inv [OF q1(2), of WaitAndPop] obtain q2 where
    "wait_and_pop q1 = Inr (Some v, q2)" "queue_inv q2 []"
    by auto
  with w q1(1) show ?thesis by blast
qed

subsection \<open>Registry and reference counts\<close>

lemma registry_set_registry [simp]: "registry (set_registry r w) = r"
  by (simp add: registry_def set_registry_def)

lemma set_registry_other [simp]:
  "wrappers (set_registry r w) = wrappers w"
  "ob_refcnt (set_registry r w) = ob_refcnt w"
  "callbacks_run (set_registry r w) = callbacks_run w"
  "started (GContext (set_registry r w)) = started (GContext w)"
  by (simp_all add: set_registry_def)

lemma set_registry_twice [simp]: "set_registry r (set_registry r' w) = set_registry r w"
  by (simp add: set_registry_def)

lemma set_registry_same [simp]: "set_registry (registry w) w = w"
  by (simp add: set_registry_def registry_def)

lemma registry_ob_refcnt_update [simp]: "registry (w\<lparr>ob_refcnt := rc\<rparr>) = registry w"
  by (simp add: registry_def)

lemma registry_world_init: "registry (world_init :: 'f world) = mvCallbackRegistry_init"
  by (simp add: registry_def world_init_def)

lemma world_init_calls_inv: "queue_inv (calls (registry (world_init :: 'f world))) []"
  by (simp add: registry_world_init mvCallbackRegistry_init_def mvQueue_init_inv)

lemma sint_succ_32:
  assumes "sint (c :: 32 word) < 2147483647"
  shows "sint (c + 1) = sint c + 1"
proof -
  have "- (2 ^ 31) \<le> sint c" using sint_ge [of c] by simp
  with assms show ?thesis
    by (simp add: sint_word_ariths signed_take_bit_int_eq_self)
qed

lemma Py_XINCREF_at: "Py_XINCREF p rc x = rc x + (if p = Some x then 1 else 0)"
  by (cases p) auto

lemma Py_XDECREF_at: "Py_XDECREF p rc x = rc x - (if p = Some x then 1 else 0)"
  by (cases p) auto


lemma Py_refcount_roundtrip:
  "Py_XDECREF ud (Py_XDECREF cb
     (Py_XDECREF a (Py_XDECREF ud (Py_XDECREF cb
        ((if \<not> d then Py_XINCREF a else id)
           (Py_XINCREF ud (Py_XINCREF cb (Py_XINCREF ud (Py_XINCREF cb rc)))))))))
   = (if d then Py_XDECREF a rc else rc)"
  by (rule ext) (simp add: Py_XINCREF_at Py_XDECREF_at)

text \<open>
  A submission is accepted as long as \<open>callCount\<close> does not exceed the ceiling: the
  counter goes up by one and the closure is the newest element of \<open>calls\<close>.
\<close>

lemma mvSubmitCallback_accepted:
  assumes "queue_inv (calls (registry w)) vs"
    and "sint (callCount (registry w)) \<le> sint (maxNumberOfCalls (registry w))"
  shows "\<exists>q. mvSubmitCallback f w =
            Inr (Pending,
                 set_registry ((registry w)\<lparr>callCount := callCount (registry w) + 1, calls := q\<rparr>) w) \<and>
          queue_inv q (vs @ [f])"
proof -
  from push_inv [OF assms(1), of f] obtain q where
    "push f (calls (registry w)) = Inr q" "queue_inv q (vs @ [f])" by blast
  with assms(2) show ?thesis
    by (auto simp: mvSubmitCallback_def word_sless_alt Let_def)
qed

text \<open>
  A row of submissions is accepted as a whole when the counter ends at most one above
  the ceiling.
\<close>

lemma submit_callbacks_accepted:
  assumes "queue_inv (calls (registry w)) vs"
    and "sint (callCount (registry w)) + int (length fs) \<le> sint (maxNumberOfCalls (registry w)) + 1"
    and "sint (maxNumberOfCalls (registry w)) < 2147483647"
  shows "\<exists>q. submit_callbacks fs w =
            Inr (replicate (length fs) Pending,
                 set_registry ((registry w)\<lparr>callCount := callCount (registry w) + of_nat (length fs),
                                           calls := q\<rparr>) w) \<and>
          queue_inv q (vs @ fs)"
  using assms
proof (induction fs arbitrary: w vs)
  case Nil
  then show ?case by (auto intro!: exI [of _ "calls (registry w)"])
next
  case (Cons f fs)
  let ?r = "registry w"
  from Cons.prems(2) have le: "sint (callCount ?r) \<le> sint (maxNumberOfCalls ?r)" by simp
  from mvSubmitCallback_accepted [OF Cons.prems(1) le, of f] obtain q1 where
    q1: "mvSubmitCallback f w =
           (Inr (Pending, set_registry (?r\<lparr>callCount := callCount ?r + 1, calls := q1\<rparr>) w)
             :: error + (unit future \<times> 'a world))"
        "queue_inv q1 (vs @ [f])"
    by blast
  let ?w1 = "set_registry (?r\<lparr>callCount := callCount ?r + 1, calls := q1\<rparr>) w"
  from le Cons.prems(3) have s: "sint (callCount ?r + 1) = sint (callCount ?r) + 1"
    by (intro sint_succ_32) simp
  have a: "queue_inv (calls (registry ?w1)) (vs @ [f])" using q1(2) by simp
  have b: "sint (callCount (registry ?w1)) + int (length fs) \<le> sint (maxNumberOfCalls (registry ?w1)) + 1"
    using Cons.prems(2) s by simp
  have c: "sint (maxNumberOfCalls (registry ?w1)) < 2147483647"
    using Cons.prems(3) by simp
  from Cons.IH [OF a b c] obtain q where
    q: "submit_callbacks fs ?w1 =
          Inr (replicate (length fs) Pending,
               set_registry ((registry ?w1)\<lparr>callCount := callCount (registry ?w1) + of_nat (length fs),
                                            calls := q\<rparr>) ?w1)"
       "queue_inv q ((vs @ [f]) @ fs)"
    by blast
  from q1(1) q show ?case
    by (auto simp: add.assoc)
qed

text \<open>
  Once the counter is back at 0, a ceiling \<open>K\<close> lets the next \<open>K + 1\<close> submissions in;
  in particular the next \<open>K\<close>.
\<close>

lemma submit_after_reset:
  assumes "queue_inv (calls (registry w)) vs"
    and "0 \<le> sint (maxNumberOfCalls (registry w))"
    and "sint (maxNumberOfCalls (registry w)) < 2147483647"
    and "int (length fs) \<le> sint (maxNumberOfCalls (registry w)) + 1"
  shows "\<exists>w'. submit_callbacks fs (reset_callCount w) = Inr (replicate (length fs) Pending, w') \<and>
           callCount (registry w') = of_nat (length fs) \<and>
           queue_inv (calls (registry w')) (vs @ fs)"
proof -
  let ?w = "reset_callCount w"
  have r: "registry ?w = (registry w)\<lparr>callCount := 0\<rparr>"
    by (simp add: reset_callCount_def)
  have a: "queue_inv (calls (registry ?w)) vs" using assms(1) r by simp
  have b: "sint (callCount (registry ?w)) + int (length fs) \<le> sint (maxNumberOfCalls (registry ?w)) + 1"
    using assms(4) r by simp
  have c: "sint (maxNumberOfCalls (registry ?w)) < 2147483647" using assms(3) r by simp
  from submit_callbacks_accepted [OF a b c] r show ?thesis by auto
qed


text \<open>
  \<open>run\<close> on a holder with a callback, when the submission is accepted: the references
  are taken and the lambda is queued.
\<close>

lemma mvCallbackWrapper_run_accepted:
  assumes "wrappers w this = Some cw" and "callback cw \<noteq> None"
    and "queue_inv (calls (registry w)) vs"
    and "sint (callCount (registry w)) \<le> sint (maxNumberOfCalls (registry w))"
  shows "\<exists>q. mvCallbackWrapper_run this s a d w =
            Inr (set_registry ((registry w)\<lparr>callCount := callCount (registry w) + 1, calls := q\<rparr>)
                   (w\<lparr>ob_refcnt :=
                        (if \<not> d then Py_XINCREF a else id)
                          (Py_XINCREF (userData cw) (Py_XINCREF (callback cw) (ob_refcnt w)))\<rparr>)) \<and>
          queue_inv q (vs @ [RunLambda this s a])"
proof -
  let ?rc = "(if \<not> d then Py_XINCREF a else id)
               (Py_XINCREF (userData cw) (Py_XINCREF (callback cw) (ob_refcnt w)))"
  let ?w = "w\<lparr>ob_refcnt := ?rc\<rparr>"
  have q: "queue_inv (calls (registry ?w)) vs" using assms(3) by simp
  have le: "sint (callCount (registry ?w)) \<le> sint (maxNumberOfCalls (registry ?w))"
    using assms(4) by simp
  from mvSubmitCallback_accepted [OF q le, of "RunLambda this s a"] obtain q' where
    q': "mvSubmitCallback (RunLambda this s a) ?w =
           (Inr (Pending, set_registry ((registry ?w)\<lparr>callCount := callCount (registry ?w) + 1,
                                                      calls := q'\<rparr>) ?w)
             :: error + (unit future \<times> 'a closure world))"
        "queue_inv q' (vs @ [RunLambda this s a])"
    by blast
  have "mvCallbackWrapper_run this s a d w =
          Inr (set_registry ((registry ?w)\<lparr>callCount := callCount (registry ?w) + 1, calls := q'\<rparr>) ?w)"
    using assms(1,2) q'(1)
    by (cases d) (auto simp: mvCallbackWrapper_run_def Let_def)
  with q'(2) show ?thesis by auto
qed



text \<open>
  Construction with \<open>borrow = true\<close>, \<open>run\<close>, the invocation of the queued lambda
  while the holder is alive, then destruction: every count is back at its value before
  the construction, except that \<open>appData\<close> has lost the reference the caller handed
  over when \<open>decrementAppData\<close> is set.
\<close>

lemma reference_balance_invoke_before_destroy:
  assumes "cb \<noteq> None"
    and "queue_inv (calls (registry w)) vs"
    and "sint (callCount (registry w)) \<le> sint (maxNumberOfCalls (registry w))"
  shows "\<exists>w2 w3 w4.
           mvCallbackWrapper_run this s a d (mvCallbackWrapper_new this cb ud True w) = Inr w2 \<and>
           run_lambda this s a w2 = Inr w3 \<and>
           mvCallbackWrapper_destroy this w3 = Inr w4 \<and>
           ob_refcnt w4 = (if d then Py_XDECREF a (ob_refcnt w) else ob_refcnt w)"
proof -
  let ?w1 = "mvCallbackWrapper_new this cb ud True w"
  let ?cw = "\<lparr>callback = cb, userData = ud\<rparr>"
  have a: "wrappers ?w1 this = Some ?cw"
    by (simp add: mvCallbackWrapper_new_def Let_def)
  have b: "callback ?cw \<noteq> None" using assms(1) by simp
  have r: "registry ?w1 = registry w"
    by (simp add: mvCallbackWrapper_new_def Let_def registry_def)
  have rc: "ob_refcnt ?w1 = Py_XINCREF ud (Py_XINCREF cb (ob_refcnt w))"
    by (simp add: mvCallbackWrapper_new_def Let_def)
  from assms(2,3) r have c: "queue_inv (calls (registry ?w1)) vs"
    and e: "sint (callCount (registry ?w1)) \<le> sint (maxNumberOfCalls (registry ?w1))"
    by simp_all
  from mvCallbackWrapper_run_accepted [OF a b c e, of s a d] obtain q where
    w2: "mvCallbackWrapper_run this s a d ?w1 =
           Inr (set_registry ((registry ?w1)\<lparr>callCount := callCount (registry ?w1) + 1, calls := q\<rparr>)
                  (?w1\<lparr>ob_refcnt :=
                        (if \<not> d then Py_XINCREF a else id)
                          (Py_XINCREF (userData ?cw) (Py_XINCREF (callback ?cw) (ob_refcnt ?w1)))\<rparr>))"
    by blast
  show ?thesis
    unfolding w2 using a
    by (simp add: run_lambda_def mvCallbackWrapper_destroy_def mvRunCallback_def Let_def rc
        Py_refcount_roundtrip del: Py_XINCREF.simps Py_XDECREF.simps)
qed

subsection \<open>The claims\<close>

text \<open>
  C1. Admission ceiling. The claim expects that with a ceiling of \<open>K\<close> the submission
  number \<open>K + 1\<close> is refused. The test of \<open>mvSubmitCallback\<close> is
  \<open>callCount > maxNumberOfCalls\<close>, so with the default ceiling 50 and the counter at 0
  all of 51 submissions in a row are accepted: each returns a future with shared state,
  the counter ends at 51 and the 51 closures are in \<open>calls\<close>. The submission after
  them is the first one refused.
\<close>

theorem admission_accepts_51_of_50:
  "\<exists>w'. submit_callbacks (map Other [0..<51]) (world_init :: nat closure world) =
           Inr (replicate 51 Pending, w') \<and>
         callCount (registry w') = 51 \<and>
         maxNumberOfCalls (registry w') = 50 \<and>
         queue_inv (calls (registry w')) (map Other [0..<51]) \<and>
         mvSubmitCallback (Other 51) w' = (Inr (NoState, w') :: error + (unit future \<times> nat closure world))"
proof -
  let ?w = "world_init :: nat closure world"
  let ?fs = "map Other [0..<51] :: nat closure list"
  have a: "sint (callCount (registry ?w)) + int (length ?fs) \<le> sint (maxNumberOfCalls (registry ?w)) + 1"
    by (simp add: registry_world_init mvCallbackRegistry_init_def)
  have b: "sint (maxNumberOfCalls (registry ?w)) < 2147483647"
    by (simp add: registry_world_init mvCallbackRegistry_init_def)
  from submit_callbacks_accepted [OF world_init_calls_inv a b] obtain q where
    q: "submit_callbacks ?fs ?w =
          Inr (replicate (length ?fs) Pending,
               set_registry ((registry ?w)\<lparr>callCount := callCount (registry ?w) + of_nat (length ?fs),
                                           calls := q\<rparr>) ?w)"
       "queue_inv q ([] @ ?fs)"
    by blast
  let ?w' = "set_registry ((registry ?w)\<lparr>callCount := callCount (registry ?w) + of_nat (length ?fs),
                                           calls := q\<rparr>) ?w"
  have c: "callCount (registry ?w') = 51" "maxNumberOfCalls (registry ?w') = 50"
    by (simp_all add: registry_world_init mvCallbackRegistry_init_def)
  then have "mvSubmitCallback (Other 51) ?w' = (Inr (NoState, ?w') :: error + (unit future \<times> nat closure world))"
    by (simp add: mvSubmitCallback_def)
  with q c show ?thesis by simp
qed

text \<open>
  C2. First in, first out. On a well-formed empty queue, \<open>N\<close> pushes followed by \<open>N\<close>
  pops, each of them any of the four pop operations, return the pushed values in the
  order of the pushes, none of the calls is undefined or waits, and the queue is empty
  again.
\<close>

theorem fifo_order:
  assumes "queue_inv q []" and "length ks = length vs"
  shows "\<exists>q1 q2. pushes vs q = Inr q1 \<and> pops ks q1 = Inr (map Some vs, q2) \<and> queue_inv q2 []"
proof -
  from pushes_inv [OF assms(1), of vs] obtain q1 where
    q1: "pushes vs q = Inr q1" "queue_inv q1 (vs @ [])" by auto
  from pops_inv [OF q1(2) assms(2)] q1(1) show ?thesis by blast
qed

theorem fifo_order_witness:
  "queue_inv (mvQueue_init :: nat mvQueue) [] \<and>
   length [TryPop, WaitAndPop, TryPopInto (0::nat), WaitAndPopInto] = length [10, 20, 30, 40 :: nat] \<and>
   (\<exists>q1 q2. pushes [10, 20, 30, 40] (mvQueue_init :: nat mvQueue) = Inr q1 \<and>
      pops [TryPop, WaitAndPop, TryPopInto 0, WaitAndPopInto] q1 =
        Inr ([Some 10, Some 20, Some 30, Some 40], q2) \<and> queue_inv q2 [])"
proof -
  have i: "queue_inv (mvQueue_init :: nat mvQueue) []"
    by (simp add: queue_inv_def mvQueue_init_def)
  have l: "length [TryPop, WaitAndPop, TryPopInto (0::nat), WaitAndPopInto] = length [10, 20, 30, 40 :: nat]"
    by simp
  from i l fifo_order [OF i l] show ?thesis by simp
qed

text \<open>
  C3. Reference balance. The claim expects the counts of callback and user data to be
  back at their old values after a borrowing construction, \<open>run()\<close>, the destruction
  of the holder and the invocation of the queued unit, whenever that happens. When the
  holder is destroyed before the unit is invoked, the unit reads \<open>callback\<close> and
  \<open>userData\<close> through the \<open>this\<close> pointer of a holder that no longer exists: after
  construction, \<open>run\<close> and destruction both counts are one above their old value 0,
  the unit is the head of \<open>calls\<close>, and invoking it is undefined.
\<close>

theorem lambda_after_destroy_dangles:
  "\<exists>w2 w3 q.
     mvCallbackWrapper_run 6 0 None True
       (mvCallbackWrapper_new 6 (Some 10) (Some 11) True (world_init :: nat closure world)) = Inr w2 \<and>
     ob_refcnt w2 10 = 2 \<and> ob_refcnt w2 11 = 2 \<and>
     mvCallbackWrapper_destroy 6 w2 = Inr w3 \<and>
     ob_refcnt w3 10 = 1 \<and> ob_refcnt w3 11 = 1 \<and>
     try_pop (calls (registry w3)) = Inr (Some (RunLambda 6 0 None), q) \<and>
     invoke (\<lambda>g w. Inr w) (RunLambda 6 0 None) (set_registry ((registry w3)\<lparr>calls := q\<rparr>) w3) =
       Inl NullDereference"
proof -
  let ?w1 = "mvCallbackWrapper_new 6 (Some 10) (Some 11) True (world_init :: nat closure world)"
  let ?cw = "\<lparr>callback = Some (10::nat), userData = Some (11::nat)\<rparr>"
  have a: "wrappers ?w1 6 = Some ?cw"
    by (simp add: mvCallbackWrapper_new_def Let_def)
  have b: "callback ?cw \<noteq> None" by simp
  have r: "registry ?w1 = mvCallbackRegistry_init"
    by (simp add: mvCallbackWrapper_new_def Let_def registry_def world_init_def)
  have rc: "ob_refcnt ?w1 = (\<lambda>_. 0)(10 := 1, 11 := 1)"
    by (simp add: mvCallbackWrapper_new_def Let_def world_init_def)
  have c: "queue_inv (calls (registry ?w1)) []"
    by (simp add: r mvCallbackRegistry_init_def mvQueue_init_inv)
  have e: "sint (callCount (registry ?w1)) \<le> sint (maxNumberOfCalls (registry ?w1))"
    by (simp add: r mvCallbackRegistry_init_def)
  from mvCallbackWrapper_run_accepted [OF a b c e, of 0 None True] obtain q1 where
    w2: "mvCallbackWrapper_run 6 0 None True ?w1 =
           Inr (set_registry ((registry ?w1)\<lparr>callCount := callCount (registry ?w1) + 1, calls := q1\<rparr>)
                  (?w1\<lparr>ob_refcnt := Py_XINCREF (Some 11) (Py_XINCREF (Some 10) (ob_refcnt ?w1))\<rparr>))"
    and q1: "queue_inv q1 [RunLambda 6 0 None]"
    by auto
  from pop_by_inv [OF q1, of TryPop] obtain q where
    q: "try_pop q1 = Inr (Some (RunLambda 6 0 None), q)"
    by auto
  show ?thesis
    unfolding w2 using a q
    by (simp add: rc mvCallbackWrapper_destroy_def run_lambda_def registry_def set_registry_def)
qed

text \<open>
  C4. \<open>mvSubmitTask\<close> before and after the start. While \<open>started\<close> is false the
  closure is run inside the call: result and state are those of the closure, the future
  holds the result and nothing else is changed, so nothing is queued. Once \<open>started\<close>
  is true the closure is not run: it becomes the newest element of \<open>tasks\<close>, the
  future is pending and the rest of the state stays as it was.
\<close>

theorem submit_task_started:
  "(\<not> started (GContext w) \<longrightarrow>
      mvSubmitTask call f w =
        (case call f w of Inl e \<Rightarrow> Inl e | Inr (r, w') \<Rightarrow> Inr (Ready r, w'))) \<and>
   (started (GContext w) \<longrightarrow> queue_inv (tasks (registry w)) vs \<longrightarrow>
      (\<exists>q. mvSubmitTask call f w = Inr (Pending, set_registry ((registry w)\<lparr>tasks := q\<rparr>) w) \<and>
           queue_inv q (vs @ [f])))"
proof (intro conjI impI)
  assume "\<not> started (GContext w)"
  then show "mvSubmitTask call f w =
        (case call f w of Inl e \<Rightarrow> Inl e | Inr (r, w') \<Rightarrow> Inr (Ready r, w'))"
    by (simp add: mvSubmitTask_def)
next
  assume s: "started (GContext w)" and i: "queue_inv (tasks (registry w)) vs"
  from push_inv [OF i, of f] obtain q where "push f (tasks (registry w)) = Inr q" "queue_inv q (vs @ [f])"
    by blast
  with s show "\<exists>q. mvSubmitTask call f w = Inr (Pending, set_registry ((registry w)\<lparr>tasks := q\<rparr>) w) \<and>
           queue_inv q (vs @ [f])"
    by (auto simp: mvSubmitTask_def)
qed

theorem submit_task_started_witness:
  "\<not> started (GContext (world_init :: nat world)) \<and>
   mvSubmitTask (\<lambda>n w. Inr (Suc n, mvRunCallback None 0 None None w)) 4 (world_init :: nat world) =
     Inr (Ready 5, mvRunCallback None 0 None None world_init) \<and>
   started (GContext ((world_init :: nat world)\<lparr>GContext := (GContext world_init)\<lparr>started := True\<rparr>\<rparr>)) \<and>
   queue_inv (tasks (registry ((world_init :: nat world)\<lparr>GContext := (GContext world_init)\<lparr>started := True\<rparr>\<rparr>))) [] \<and>
   (\<exists>q. mvSubmitTask (\<lambda>n w. Inr (Suc n, mvRunCallback None 0 None None w)) 4
          ((world_init :: nat world)\<lparr>GContext := (GContext world_init)\<lparr>started := True\<rparr>\<rparr>) =
        Inr (Pending :: nat future,
             set_registry ((registry ((world_init :: nat world)\<lparr>GContext := (GContext world_init)\<lparr>started := True\<rparr>\<rparr>))\<lparr>tasks := q\<rparr>)
               (world_init\<lparr>GContext := (GContext world_init)\<lparr>started := True\<rparr>\<rparr>)) \<and>
        queue_inv q ([] @ [4]))"
proof -
  let ?call = "\<lambda>(n::nat) (w::nat world). (Inr (Suc n, mvRunCallback None 0 None None w) :: error + (nat \<times> nat world))"
  let ?w1 = "(world_init :: nat world)\<lparr>GContext := (GContext world_init)\<lparr>started := True\<rparr>\<rparr>"
  have a: "\<not> started (GContext (world_init :: nat world))"
    by (simp add: world_init_def)
  have b: "started (GContext ?w1)"
    by simp
  have c: "queue_inv (tasks (registry ?w1)) []"
    by (simp add: registry_def world_init_def mvCallbackRegistry_init_def queue_inv_def
        mvQueue_init_def)
  from a b c
    submit_task_started [of world_init ?call 4 "[]"]
    submit_task_started [of ?w1 ?call 4 "[]"]
  show ?thesis by simp
qed

text \<open>
  C5. A move empties its source. After a move assignment from \<open>other\<close>, and after
  the constructor that takes the pointers of \<open>other\<close>, both pointers of \<open>other\<close> are
  null, the target holds what \<open>other\<close> held, no reference count has changed, and
  destroying \<open>other\<close> afterwards changes no reference count either.
\<close>

theorem move_nulls_source:
  assumes "wrappers w other = Some src"
  shows "(wrappers w this = Some dst \<longrightarrow>
            (\<exists>w1 w2. mvCallbackWrapper_assign this other w = Inr w1 \<and>
               wrappers w1 other = Some \<lparr>callback = None, userData = None\<rparr> \<and>
               (this \<noteq> other \<longrightarrow> wrappers w1 this = Some src) \<and>
               ob_refcnt w1 = ob_refcnt w \<and>
               mvCallbackWrapper_destroy other w1 = Inr w2 \<and>
               ob_refcnt w2 = ob_refcnt w)) \<and>
         (\<exists>w1 w2. mvCallbackWrapper_steal this other w = Inr w1 \<and>
            wrappers w1 other = Some \<lparr>callback = None, userData = None\<rparr> \<and>
            (this \<noteq> other \<longrightarrow> wrappers w1 this = Some src) \<and>
            ob_refcnt w1 = ob_refcnt w \<and>
            mvCallbackWrapper_destroy other w1 = Inr w2 \<and>
            ob_refcnt w2 = ob_refcnt w)"
  using assms
  by (auto simp: mvCallbackWrapper_assign_def mvCallbackWrapper_steal_def
      mvCallbackWrapper_destroy_def)

theorem move_nulls_source_witness:
  "wrappers (mvCallbackWrapper_new 7 (Some 20) (Some 21) True
              (mvCallbackWrapper_new 6 (Some 10) (Some 11) True (world_init :: nat world))) 7 =
     Some \<lparr>callback = Some 20, userData = Some 21\<rparr> \<and>
   wrappers (mvCallbackWrapper_new 7 (Some 20) (Some 21) True
              (mvCallbackWrapper_new 6 (Some 10) (Some 11) True (world_init :: nat world))) 6 =
     Some \<lparr>callback = Some 10, userData = Some 11\<rparr> \<and>
   (\<exists>w1 w2. mvCallbackWrapper_assign 6 7
               (mvCallbackWrapper_new 7 (Some 20) (Some 21) True
                 (mvCallbackWrapper_new 6 (Some 10) (Some 11) True (world_init :: nat world))) = Inr w1 \<and>
       wrappers w1 7 = Some \<lparr>callback = None, userData = None\<rparr> \<and>
       wrappers w1 6 = Some \<lparr>callback = Some 20, userData = Some 21\<rparr> \<and>
       mvCallbackWrapper_destroy 7 w1 = Inr w2 \<and>
       ob_refcnt w2 20 = 1 \<and> ob_refcnt w2 21 = 1)"
proof -
  let ?w = "mvCallbackWrapper_new 7 (Some 20) (Some 21) True
              (mvCallbackWrapper_new 6 (Some 10) (Some 11) True (world_init :: nat world))"
  have a: "wrappers ?w 7 = Some \<lparr>callback = Some 20, userData = Some 21\<rparr>"
    by (simp add: mvCallbackWrapper_new_def Let_def)
  have b: "wrappers ?w 6 = Some \<lparr>callback = Some 10, userData = Some 11\<rparr>"
    by (simp add: mvCallbackWrapper_new_def Let_def)
  have c: "ob_refcnt ?w 20 = 1" "ob_refcnt ?w 21 = 1"
    by (simp_all add: mvCallbackWrapper_new_def Let_def world_init_def)
  from move_nulls_source [OF a, of 6 "\<lparr>callback = Some 10, userData = Some 11\<rparr>"] a b c
  show ?thesis by auto
qed

text \<open>
  C6. A refused submission changes nothing. When \<open>callCount\<close> exceeds
  \<open>maxNumberOfCalls\<close>, \<open>mvSubmitCallback\<close> returns a future without shared state and
  the whole program state, counter and \<open>calls\<close> queue included, is as before.
\<close>

theorem submit_callback_refused:
  "maxNumberOfCalls (registry w) <s callCount (registry w) \<Longrightarrow>
   mvSubmitCallback f w = Inr (NoState, w)"
  by (simp add: mvSubmitCallback_def)

theorem submit_callback_refused_witness:
  "maxNumberOfCalls (registry (set_registry (mvCallbackRegistry_init\<lparr>callCount := 51\<rparr>) (world_init :: nat world)))
     <s callCount (registry (set_registry (mvCallbackRegistry_init\<lparr>callCount := 51\<rparr>) (world_init :: nat world))) \<and>
   mvSubmitCallback (3::nat) (set_registry (mvCallbackRegistry_init\<lparr>callCount := 51\<rparr>) world_init) =
     (Inr (NoState, set_registry (mvCallbackRegistry_init\<lparr>callCount := 51\<rparr>) world_init)
       :: error + (unit future \<times> nat world))"
proof -
  let ?w = "set_registry (mvCallbackRegistry_init\<lparr>callCount := 51\<rparr>) (world_init :: nat world)"
  have h: "maxNumberOfCalls (registry ?w) <s callCount (registry ?w)"
    by (simp add: mvCallbackRegistry_init_def)
  from h submit_callback_refused [OF h] show ?thesis by simp
qed

text \<open>
  C7. No callback, no effect. On a holder whose \<open>callback\<close> is null, \<open>run\<close> and
  \<open>run_blocking\<close>, called on the holder or through a slot, return with the program
  state unchanged: no callback is run, no reference count moves, nothing is queued.
\<close>

theorem null_callback_noop:
  assumes "wrappers w this = Some cw" and "callback cw = None" and "callbackWrapper slot = this"
  shows "mvCallbackWrapper_run this s a d w = Inr w \<and>
         mvCallbackWrapper_run_blocking this s a d w = Inr w \<and>
         mvCallbackPythonSlot_run slot s a d w = Inr w \<and>
         mvCallbackPythonSlot_run_blocking slot s a d w = Inr w"
  using assms
  by (simp add: mvCallbackWrapper_run_def mvCallbackWrapper_run_blocking_def
      mvCallbackPythonSlot_run_def mvCallbackPythonSlot_run_blocking_def)

theorem null_callback_noop_witness:
  "wrappers (world_init :: nat closure world) 0 = Some \<lparr>callback = None, userData = None\<rparr> \<and>
   callback \<lparr>callback = None, userData = None\<rparr> = None \<and>
   callbackWrapper (viewportResizeCallbackSlot (registry (world_init :: nat closure world))) = 0 \<and>
   mvCallbackWrapper_run 0 5 (Some 30) False (world_init :: nat closure world) = Inr world_init \<and>
   mvCallbackWrapper_run_blocking 0 5 (Some 30) False (world_init :: nat closure world) = Inr world_init \<and>
   mvCallbackPythonSlot_run (viewportResizeCallbackSlot (registry (world_init :: nat closure world)))
     5 (Some 30) False (world_init :: nat closure world) = Inr world_init \<and>
   mvCallbackPythonSlot_run_blocking (viewportResizeCallbackSlot (registry (world_init :: nat closure world)))
     5 (Some 30) False (world_init :: nat closure world) = Inr world_init"
proof -
  let ?w = "world_init :: nat closure world"
  have a: "wrappers ?w 0 = Some \<lparr>callback = None, userData = None\<rparr>"
    by (simp add: world_init_def)
  have b: "callback \<lparr>callback = None, userData = None\<rparr> = None"
    by simp
  have c: "callbackWrapper (viewportResizeCallbackSlot (registry ?w)) = 0"
    by (simp add: registry_world_init mvCallbackRegistry_init_def)
  from a b c null_callback_noop [OF a b c, of 5 "Some 30" False] show ?thesis by simp
qed

text \<open>
  C8. Popping from an empty queue. When head and tail coincide, \<open>try_pop()\<close> returns
  a null pointer and \<open>try_pop(value)\<close> returns false and leaves \<open>value\<close> alone; both
  return at once, as ordinary results, and the queue is unchanged.
\<close>

theorem try_pop_empty:
  "mvQueue_empty q \<Longrightarrow>
   try_pop q = Inr (None, q) \<and> try_pop_value val q = Inr (False, val, q)"
  by (simp add: mvQueue_empty_def try_pop_def try_pop_head_def try_pop_value_def
      try_pop_head_value_def)

theorem try_pop_empty_witness:
  "mvQueue_empty (mvQueue_init :: nat mvQueue) \<and>
   try_pop (mvQueue_init :: nat mvQueue) = Inr (None, mvQueue_init) \<and>
   try_pop_value 7 (mvQueue_init :: nat mvQueue) = Inr (False, 7, mvQueue_init)"
proof -
  have e: "mvQueue_empty (mvQueue_init :: nat mvQueue)"
    by (simp add: mvQueue_empty_def mvQueue_init_def)
  from e try_pop_empty [OF e, of 7] show ?thesis by simp
qed




end
